theory Spec2Isabelle
  imports
    Complex_Main
    "HOL-Library.AList"
    "HOL-Library.Char_ord"
    "HOL-Library.List_Lexorder"
    "HOL-Library.Multiset"
    "HOL-Library.Product_Lexorder"
begin

section \<open>Capacity admission check (SelectedResourcesSize.vue)\<close>

text \<open>
  The component's props. \<open>fileSize\<close>, \<open>resourceCount\<close> and \<open>spaceOnDrive\<close> are all declared
  \<^verbatim>\<open>{ type: Number, required: true }\<close>; they carry byte counts and a number of resources,
  so they are modelled as integers (no fractional values, no NaN).
\<close>

record selected_resources_size =
  mode :: string
  fileSize :: int
  resourceCount :: int
  spaceOnDrive :: int

text \<open>\<^verbatim>\<open>Math.max(this.spaceOnDrive - this.fileSize, 0)\<close>\<close>

definition remainingSpaceAfterTransfer :: "selected_resources_size \<Rightarrow> int" where
  "remainingSpaceAfterTransfer p = max (spaceOnDrive p - fileSize p) 0"

text \<open>\<^verbatim>\<open>this.resourceCount === 0 || this.remainingSpaceAfterTransfer <= 0\<close>\<close>

definition buttonIsDisabled :: "selected_resources_size \<Rightarrow> bool" where
  "buttonIsDisabled p \<longleftrightarrow> resourceCount p = 0 \<or> remainingSpaceAfterTransfer p \<le> 0"

section \<open>JavaScript values and objects\<close>

text \<open>
  The report pages build their rows as plain JavaScript objects and merge them with
  \<^verbatim>\<open>Object.assign\<close>, so objects are modelled as they are: an ordered list of own properties
  (name, value). A property that is absent reads as \<^verbatim>\<open>undefined\<close>.
\<close>

datatype jsval =
    JUndefined
  | JNull
  | JBool bool
  | JNum int
  | JStr string
  | JArr "jsval list"
  | JObj "(string \<times> jsval) list"

type_synonym jsobj = "(string \<times> jsval) list"

text \<open>Property read \<^verbatim>\<open>obj.name\<close>.\<close>

definition js_get :: "jsobj \<Rightarrow> string \<Rightarrow> jsval" where
  "js_get obj name = (case map_of obj name of None \<Rightarrow> JUndefined | Some v \<Rightarrow> v)"

text \<open>\<^verbatim>\<open>ToBoolean\<close>: what \<^verbatim>\<open>Array.prototype.filter\<close>, \<^verbatim>\<open>!\<close> and \<^verbatim>\<open>v-if\<close> make of a value.\<close>

fun truthy :: "jsval \<Rightarrow> bool" where
  "truthy JUndefined = False"
| "truthy JNull = False"
| "truthy (JBool b) = b"
| "truthy (JNum n) = (n \<noteq> 0)"
| "truthy (JStr s) = (s \<noteq> [])"
| "truthy (JArr vs) = True"
| "truthy (JObj ps) = True"

text \<open>Property write \<^verbatim>\<open>obj[name] = v\<close>: an existing property keeps its place, a new one is appended.\<close>

definition js_set :: "jsobj \<Rightarrow> string \<Rightarrow> jsval \<Rightarrow> jsobj" where
  "js_set obj name v = AList.update name v obj"

text \<open>\<^verbatim>\<open>Object.keys(obj)\<close>: the names of the own properties, each once.\<close>

definition Object_keys :: "jsobj \<Rightarrow> string list" where
  "Object_keys obj = remdups (map fst obj)"

text \<open>
  \<^verbatim>\<open>Object.assign(target, source)\<close>: for every own property name of \<open>source\<close>, in order,
  \<^verbatim>\<open>target[name] = source[name]\<close>.
\<close>

definition Object_assign :: "jsobj \<Rightarrow> jsobj \<Rightarrow> jsobj" where
  "Object_assign target source =
     fold (\<lambda>name t. js_set t name (js_get source name)) (Object_keys source) target"

section \<open>lodash \<^verbatim>\<open>sortBy\<close>\<close>

text \<open>
  \<^verbatim>\<open>this._.sortBy(collection, paths)\<close> is lodash, a library outside the repository. It is
  modelled after lodash's own algorithm (\<^verbatim>\<open>baseOrderBy\<close>): every element is decorated with its
  criteria (the values at the given property paths) and its index in the collection, the
  decorated array is sorted with a comparator that compares the criteria from left to right
  (\<^verbatim>\<open>compareMultiple\<close>, \<^verbatim>\<open>compareAscending\<close>) and, when all criteria are equal, the indices;
  then the decoration is dropped.

  \<open>criterion\<close> places a value in the order of \<^verbatim>\<open>compareAscending\<close>: booleans and numbers are
  compared as numbers (\<^verbatim>\<open>false < true\<close>), strings with strings lexicographically by
  character code, \<^verbatim>\<open>null\<close> after every defined value and \<^verbatim>\<open>undefined\<close> last. The sort keys of
  the pages are a title (a string) and an active flag (a boolean); how JavaScript compares
  a string with a number, or objects with anything, is not modelled: such values are
  ordered by kind.
\<close>

type_synonym criterion = "nat \<times> int \<times> string"

fun criterion :: "jsval \<Rightarrow> criterion" where
  "criterion (JBool b) = (0, (if b then 1 else 0), [])"
| "criterion (JNum n) = (0, n, [])"
| "criterion (JStr s) = (1, 0, s)"
| "criterion (JArr vs) = (2, 0, [])"
| "criterion (JObj ps) = (2, 0, [])"
| "criterion JNull = (3, 0, [])"
| "criterion JUndefined = (4, 0, [])"

text \<open>
  The comparator decides every pair of distinct decorated elements (their indices differ),
  so the sorted array does not depend on the engine's sorting algorithm; insertion sort
  (\<open>sort_key\<close>) stands for \<^verbatim>\<open>Array.prototype.sort\<close>.
\<close>

definition baseOrderBy :: "('a \<Rightarrow> criterion list) \<Rightarrow> 'a list \<Rightarrow> 'a list" where
  "baseOrderBy criteria collection =
     map snd (sort_key fst
       (map (\<lambda>(index, v). ((criteria v, index), v)) (enumerate 0 collection)))"

definition criteria_of :: "string list \<Rightarrow> jsobj \<Rightarrow> criterion list" where
  "criteria_of paths obj = map (\<lambda>path. criterion (js_get obj path)) paths"

definition sortBy :: "jsobj list \<Rightarrow> string list \<Rightarrow> jsobj list" where
  "sortBy collection paths = baseOrderBy (criteria_of paths) collection"

section \<open>Helpers of the \<^verbatim>\<open>commonCoach\<close> mixin\<close>

text \<open>
  Modelled from the spec: the Tally, "a mapping with four fixed keys, all present", which
  \<^verbatim>\<open>getLessonStatusTally\<close> and \<^verbatim>\<open>getContentStatusTally\<close> of the \<^verbatim>\<open>commonCoach\<close> mixin return.
  The mixin is not part of the sources at hand.
\<close>

record tally =
  notStarted :: int
  inProgress :: int
  completed :: int
  needsHelp :: int

text \<open>\<^verbatim>\<open>Object.values(tally)\<close>.\<close>

definition Object_values :: "tally \<Rightarrow> int list" where
  "Object_values t = [notStarted t, inProgress t, completed t, needsHelp t]"

text \<open>The tally as the JavaScript object stored in a row.\<close>

definition tally_obj :: "tally \<Rightarrow> jsval" where
  "tally_obj t = JObj [(''notStarted'', JNum (notStarted t)), (''inProgress'', JNum (inProgress t)),
                      (''completed'', JNum (completed t)), (''needsHelp'', JNum (needsHelp t))]"

text \<open>
  The mixin's helpers that the two \<^verbatim>\<open>table\<close> functions call. Their code is not at hand, so
  they are parameters of the model: any functions of their arguments.
\<close>

record coach =
  getLearnersForLesson :: "jsobj \<Rightarrow> jsval list"
  getLessonStatusTally :: "jsval \<Rightarrow> jsval list \<Rightarrow> tally"
  getGroupNames :: "jsval \<Rightarrow> jsval"
  getContentStatusTally :: "jsval \<Rightarrow> jsval list \<Rightarrow> tally"
  getContentAvgTimeSpent :: "jsval \<Rightarrow> jsval list \<Rightarrow> jsval"

section \<open>The lesson list (ReportsLessonListPage.vue)\<close>

text \<open>
  The callback of \<^verbatim>\<open>this.lessons.filter\<close>. \<open>fv\<close> is \<^verbatim>\<open>this.filter.value\<close>. When none of the
  three tests succeeds the function body ends without a \<^verbatim>\<open>return\<close>: the result is
  \<^verbatim>\<open>undefined\<close>.
\<close>

definition filter_callback :: "jsval \<Rightarrow> jsobj \<Rightarrow> jsval" where
  "filter_callback fv lesson =
     (if fv = JStr ''allLessons'' then JBool True
      else if fv = JStr ''activeLessons'' then js_get lesson ''active''
      else if fv = JStr ''inactiveLessons'' then JBool (\<not> truthy (js_get lesson ''active''))
      else JUndefined)"

text \<open>\<^verbatim>\<open>const filtered = this.lessons.filter(...)\<close>: the elements whose result is truthy.\<close>

definition filtered :: "jsobj \<Rightarrow> jsobj list \<Rightarrow> jsobj list" where
  "filtered filter_opt lessons =
     filter (\<lambda>lesson. truthy (filter_callback (js_get filter_opt ''value'') lesson)) lessons"

text \<open>\<^verbatim>\<open>const sorted = this._.sortBy(filtered, ['title', 'active'])\<close>\<close>

definition sorted_lessons :: "jsobj \<Rightarrow> jsobj list \<Rightarrow> jsobj list" where
  "sorted_lessons filter_opt lessons = sortBy (filtered filter_opt lessons) [''title'', ''active'']"

text \<open>The callback of \<^verbatim>\<open>sorted.map\<close>.\<close>

definition lesson_row :: "coach \<Rightarrow> jsobj \<Rightarrow> jsobj" where
  "lesson_row c lesson =
     (let learners = getLearnersForLesson c lesson;
          tableRow =
            [(''totalLearners'', JNum (int (length learners))),
             (''tally'', tally_obj (getLessonStatusTally c (js_get lesson ''id'') learners)),
             (''groupNames'', getGroupNames c (js_get lesson ''groups'')),
             (''hasAssignments'', JBool (length learners > 0))]
      in Object_assign tableRow lesson)"

text \<open>
  The computed property \<^verbatim>\<open>table\<close>. \<open>filter_opt\<close> is \<^verbatim>\<open>this.filter\<close>, the selected option object
  \<^verbatim>\<open>{ label, value }\<close>; \<open>lessons\<close> is \<^verbatim>\<open>this.lessons\<close>.
\<close>

definition table :: "coach \<Rightarrow> jsobj \<Rightarrow> jsobj list \<Rightarrow> jsobj list" where
  "table c filter_opt lessons = map (lesson_row c) (sorted_lessons filter_opt lessons)"

section \<open>The lesson report (ReportsLessonReportPage)\<close>

datatype error = TypeError

text \<open>
  \<^verbatim>\<open>this.lesson.node_ids.map(node_id => this.contentNodeMap[node_id])\<close>: an identifier that the
  map does not hold yields \<^verbatim>\<open>undefined\<close>.
\<close>

definition contentArray :: "string list \<Rightarrow> (string \<rightharpoonup> jsobj) \<Rightarrow> jsobj option list" where
  "contentArray node_ids contentNodeMap = map contentNodeMap node_ids"

text \<open>The callback of \<^verbatim>\<open>sorted.map\<close>; \<open>hasAssignments\<close> is the number that \<^verbatim>\<open>reduce\<close> returns.\<close>

definition content_row :: "coach \<Rightarrow> jsval list \<Rightarrow> jsobj \<Rightarrow> jsobj" where
  "content_row c recipients content =
     (let tally = getContentStatusTally c (js_get content ''content_id'') recipients;
          tableRow =
            [(''avgTimeSpent'', getContentAvgTimeSpent c (js_get content ''content_id'') recipients),
             (''tally'', tally_obj tally),
             (''hasAssignments'', JNum (fold (\<lambda>b a. a + b) (Object_values tally) 0))]
      in Object_assign tableRow content)"

text \<open>
  The computed property \<^verbatim>\<open>table\<close> of the report page. \<open>recipients\<close> is \<^verbatim>\<open>this.recipients\<close>,
  \<open>node_ids\<close> is \<^verbatim>\<open>this.lesson.node_ids\<close>. Reading \<^verbatim>\<open>content.content_id\<close> of an \<^verbatim>\<open>undefined\<close>
  element throws a \<^verbatim>\<open>TypeError\<close>, which ends the whole computation.
\<close>

definition report_table ::
    "coach \<Rightarrow> jsval list \<Rightarrow> string list \<Rightarrow> (string \<rightharpoonup> jsobj) \<Rightarrow> error + jsobj list" where
  "report_table c recipients node_ids contentNodeMap =
     (let arr = contentArray node_ids contentNodeMap
      in if None \<in> set arr then Inl TypeError
         else Inr (map (content_row c recipients) (sortBy (map the arr) [''title''])))"

section \<open>The lesson list over an object store\<close>

text \<open>
  JavaScript arrays hold references to objects, and \<^verbatim>\<open>Object.assign\<close> mutates its target in
  place. To state what a call of \<^verbatim>\<open>table\<close> does to the objects it is given, the same code is
  modelled once more over an explicit store: a reference is an index into the store, an
  object literal allocates at the end of the store, and \<^verbatim>\<open>Object.assign\<close> updates the store
  at its target.
\<close>

type_synonym ref = nat

type_synonym store = "jsobj list"

definition new_object :: "jsobj \<Rightarrow> store \<Rightarrow> ref \<times> store" where
  "new_object obj h = (length h, h @ [obj])"

definition Object_assign_ref :: "ref \<Rightarrow> ref \<Rightarrow> store \<Rightarrow> store" where
  "Object_assign_ref target source h = h[target := Object_assign (h ! target) (h ! source)]"

text \<open>The callback of \<^verbatim>\<open>sorted.map\<close>: it returns the reference of the new row.\<close>

definition lesson_row_ref :: "coach \<Rightarrow> ref \<Rightarrow> store \<Rightarrow> ref \<times> store" where
  "lesson_row_ref c lesson h =
     (let learners = getLearnersForLesson c (h ! lesson);
          (tableRow, h1) = new_object
            [(''totalLearners'', JNum (int (length learners))),
             (''tally'', tally_obj (getLessonStatusTally c (js_get (h ! lesson) ''id'') learners)),
             (''groupNames'', getGroupNames c (js_get (h ! lesson) ''groups'')),
             (''hasAssignments'', JBool (length learners > 0))] h
      in (tableRow, Object_assign_ref tableRow lesson h1))"

text \<open>\<^verbatim>\<open>Array.prototype.map\<close> with a callback that works on the store.\<close>

fun map_refs :: "(ref \<Rightarrow> store \<Rightarrow> ref \<times> store) \<Rightarrow> ref list \<Rightarrow> store \<Rightarrow> ref list \<times> store" where
  "map_refs f [] h = ([], h)"
| "map_refs f (x # xs) h =
     (let (y, h1) = f x h; (ys, h2) = map_refs f xs h1 in (y # ys, h2))"

definition table_ref :: "coach \<Rightarrow> jsobj \<Rightarrow> ref list \<Rightarrow> store \<Rightarrow> ref list \<times> store" where
  "table_ref c filter_opt lessons h =
     (let filtered = filter
            (\<lambda>lesson. truthy (filter_callback (js_get filter_opt ''value'') (h ! lesson))) lessons;
          sorted = baseOrderBy (\<lambda>lesson. criteria_of [''title'', ''active''] (h ! lesson)) filtered
      in map_refs (lesson_row_ref c) sorted h)"

section \<open>Tally calculator and time aggregator\<close>

text \<open>
  Modelled from the spec: the completion records and their provider. The functions
  \<^verbatim>\<open>getLessonStatusTally\<close>, \<^verbatim>\<open>getContentStatusTally\<close> and \<^verbatim>\<open>getContentAvgTimeSpent\<close> that the
  pages call belong to the \<^verbatim>\<open>commonCoach\<close> mixin, whose code is not at hand; what follows is
  written from sections 3, 4.1, 4.2 and 6 of the specification. A record holds a status and
  a time spent that may be absent; the provider answers, for a recipient and an item, with
  the most recent record if there is one.
\<close>

datatype status = NotStarted | InProgress | Completed | NeedsHelp

record completion_record =
  status :: status
  timeSpent :: "real option"

type_synonym record_provider = "string \<Rightarrow> string \<Rightarrow> completion_record option"

text \<open>
  Modelled from the spec: "look up the most recent CompletionRecord for (recipient, itemId);
  if absent, treat as not-started".
\<close>

definition status_for :: "record_provider \<Rightarrow> string \<Rightarrow> string \<Rightarrow> status" where
  "status_for records itemId recipient =
     (case records recipient itemId of None \<Rightarrow> NotStarted | Some r \<Rightarrow> status r)"

text \<open>Modelled from the spec: "Increment the corresponding bucket."\<close>

fun increment :: "status \<Rightarrow> tally \<Rightarrow> tally" where
  "increment NotStarted t = t\<lparr>notStarted := notStarted t + 1\<rparr>"
| "increment InProgress t = t\<lparr>inProgress := inProgress t + 1\<rparr>"
| "increment Completed t = t\<lparr>completed := completed t + 1\<rparr>"
| "increment NeedsHelp t = t\<lparr>needsHelp := needsHelp t + 1\<rparr>"

text \<open>
  Modelled from the spec: \<^verbatim>\<open>computeTally(itemId, recipients) -> Tally\<close> of section 4.1, the
  recipients visited one after the other, starting from the zero-filled tally.
\<close>

definition computeTally :: "record_provider \<Rightarrow> string \<Rightarrow> string list \<Rightarrow> tally" where
  "computeTally records itemId recipients =
     fold (\<lambda>recipient. increment (status_for records itemId recipient)) recipients
       \<lparr>notStarted = 0, inProgress = 0, completed = 0, needsHelp = 0\<rparr>"

text \<open>
  Modelled from the spec: the time spent of a recipient on an item, defined when there is
  a record and the record has a time spent.
\<close>

definition time_for :: "record_provider \<Rightarrow> string \<Rightarrow> string \<Rightarrow> real option" where
  "time_for records itemId recipient =
     (case records recipient itemId of None \<Rightarrow> None | Some r \<Rightarrow> timeSpent r)"

datatype arith_error = DivisionByZero

text \<open>Division that reports a zero denominator instead of computing with it.\<close>

definition divide_checked :: "real \<Rightarrow> real \<Rightarrow> arith_error + real" where
  "divide_checked a b = (if b = 0 then Inl DivisionByZero else Inr (a / b))"

text \<open>
  Modelled from the spec: \<^verbatim>\<open>computeAverageTime(itemId, recipients) -> duration\<close> of section
  4.2: the mean over the recipients with a defined time spent; "if denominator is zero,
  return zero directly".
\<close>

definition computeAverageTime ::
    "record_provider \<Rightarrow> string \<Rightarrow> string list \<Rightarrow> arith_error + real" where
  "computeAverageTime records itemId recipients =
     (let times = List.map_filter (time_for records itemId) recipients
      in if length times = 0 then Inr 0
         else divide_checked (sum_list times) (real (length times)))"

text \<open>The number of recipients whose status for the item is \<open>s\<close>; used to state what the tally holds.\<close>

definition count_status :: "record_provider \<Rightarrow> string \<Rightarrow> status \<Rightarrow> string list \<Rightarrow> int" where
  "count_status records itemId s recipients =
     int (length (filter (\<lambda>recipient. status_for records itemId recipient = s) recipients))"

section \<open>Example data\<close>

text \<open>Concrete helpers, lessons and records on which the theorems below are exercised.\<close>

definition example_coach :: coach where
  "example_coach =
     \<lparr>getLearnersForLesson = (\<lambda>lesson. case js_get lesson ''groups'' of JArr gs \<Rightarrow> gs | _ \<Rightarrow> []),
      getLessonStatusTally = (\<lambda>lessonId learners.
         \<lparr>notStarted = int (length learners), inProgress = 0, completed = 0, needsHelp = 0\<rparr>),
      getGroupNames = (\<lambda>groups. groups),
      getContentStatusTally = (\<lambda>contentId learners.
         \<lparr>notStarted = int (length learners), inProgress = 1, completed = 2, needsHelp = 0\<rparr>),
      getContentAvgTimeSpent = (\<lambda>contentId learners. JNum 0)\<rparr>"

definition lesson_a :: jsobj where
  "lesson_a = [(''id'', JStr ''a''), (''title'', JStr ''Zeta''), (''active'', JBool True),
               (''groups'', JArr [JStr ''g1''])]"

definition lesson_b :: jsobj where
  "lesson_b = [(''id'', JStr ''b''), (''title'', JStr ''Alpha''), (''active'', JBool False),
               (''groups'', JArr [])]"

definition lesson_c :: jsobj where
  "lesson_c = [(''id'', JStr ''c''), (''title'', JStr ''Alpha''), (''active'', JBool True),
               (''groups'', JArr []), (''hasAssignments'', JStr ''own'')]"

definition option_of :: "string \<Rightarrow> jsobj" where
  "option_of v = [(''label'', JStr ''shown''), (''value'', JStr v)]"

definition example_records :: record_provider where
  "example_records recipient itemId =
     (if itemId = ''i'' \<and> recipient = ''r1''
        then Some \<lparr>status = Completed, timeSpent = Some 30\<rparr>
      else if itemId = ''i'' \<and> recipient = ''r2''
        then Some \<lparr>status = InProgress, timeSpent = None\<rparr>
      else None)"

text \<open>
  The scenario of the specification: ten recipients, four with a completed record, three
  in progress, two not started and one without a record.
\<close>

definition scenario_records :: record_provider where
  "scenario_records recipient itemId =
     (if itemId \<noteq> ''i'' then None
      else if recipient \<in> set [''r1'', ''r2'', ''r3'', ''r4'']
        then Some \<lparr>status = Completed, timeSpent = Some 60\<rparr>
      else if recipient \<in> set [''r5'', ''r6'', ''r7'']
        then Some \<lparr>status = InProgress, timeSpent = Some 20\<rparr>
      else if recipient \<in> set [''r8'', ''r9'']
        then Some \<lparr>status = NotStarted, timeSpent = None\<rparr>
      else None)"

section \<open>Properties of the admission check\<close>

lemma buttonIsDisabled_iff:
  "buttonIsDisabled p \<longleftrightarrow> resourceCount p = 0 \<or> spaceOnDrive p \<le> fileSize p"
  by (auto simp: buttonIsDisabled_def remainingSpaceAfterTransfer_def)




text \<open>
  For a count that is not negative, as a number of selected resources is, "not zero" is
  "greater than zero".
\<close>

lemma admission_for_counts:
  assumes "0 \<le> n"
  shows "(\<not> buttonIsDisabled \<lparr>mode = m, fileSize = sz, resourceCount = n, spaceOnDrive = space\<rparr>)
           \<longleftrightarrow> (space - sz > 0 \<and> n > 0)"
  using assms by (auto simp: buttonIsDisabled_iff)

text \<open>
  C5. The remaining space after the transfer is \<open>max (space - size) 0\<close>, hence never negative;
  with 1000 available and a payload of 1200 it is 0.
\<close>

theorem remaining_clamped:
  "remainingSpaceAfterTransfer \<lparr>mode = m, fileSize = sz, resourceCount = n, spaceOnDrive = space\<rparr>
       = max (space - sz) 0
   \<and> 0 \<le> remainingSpaceAfterTransfer \<lparr>mode = m, fileSize = sz, resourceCount = n, spaceOnDrive = space\<rparr>
   \<and> remainingSpaceAfterTransfer \<lparr>mode = m, fileSize = 1200, resourceCount = n, spaceOnDrive = 1000\<rparr> = 0"
  by (simp add: remainingSpaceAfterTransfer_def)

section \<open>Properties of objects and of the sort\<close>

lemma map_of_fold_js_set:
  "map_of (fold (\<lambda>name t. js_set t name (g name)) names target) =
     (\<lambda>n. if n \<in> set names then Some (g n) else map_of target n)"
  by (induction names arbitrary: target) (auto simp: js_set_def update_conv' fun_eq_iff)

lemma js_get_Object_assign:
  "js_get (Object_assign target source) name =
     (if name \<in> fst ` set source then js_get source name else js_get target name)"
  by (simp add: Object_assign_def Object_keys_def js_get_def map_of_fold_js_set)

lemma js_get_absent: "name \<notin> fst ` set obj \<Longrightarrow> js_get obj name = JUndefined"
  by (simp add: js_get_def map_of_eq_None_iff [THEN iffD2])

lemma map_snd_filter: "map snd (filter (\<lambda>p. Q (snd p)) ys) = filter Q (map snd ys)"
  by (simp add: filter_map comp_def)

lemma decorated_sorted:
  "sorted (map fst (filter (\<lambda>(key, v). fst key = k)
     (map (\<lambda>(index, v). ((criteria v, index), v)) (enumerate n xs))))"
proof (induction xs arbitrary: n)
  case Nil
  show ?case by simp
next
  case (Cons x xs)
  have later: "(k, n) \<le> key"
    if "key \<in> fst ` set (filter (\<lambda>(key, v). fst key = k)
          (map (\<lambda>(index, v). ((criteria v, index), v)) (enumerate (Suc n) xs)))" for key
  proof -
    from that obtain i v where "(i, v) \<in> set (enumerate (Suc n) xs)" "key = (k, i)"
      by auto
    then have "Suc n \<le> i" by (simp add: in_set_enumerate_eq)
    with \<open>key = (k, i)\<close> show ?thesis by (simp add: less_eq_prod_def)
  qed
  show ?case
  proof (cases "criteria x = k")
    case True
    with Cons.IH [of "Suc n"] later show ?thesis by (simp del: set_filter) 
  next
    case False
    with Cons.IH [of "Suc n"] show ?thesis by simp
  qed
qed

lemma baseOrderBy_stable:
  "filter (\<lambda>v. criteria v = k) (baseOrderBy criteria xs) = filter (\<lambda>v. criteria v = k) xs"
proof -
  let ?dec = "map (\<lambda>(index, v). ((criteria v, index), v)) (enumerate 0 xs)"
  let ?P = "\<lambda>(key, v). fst key = k"
  have same: "(criteria (snd p) = k) = ?P p" if "p \<in> set (sort_key fst ?dec)" for p
    using that by auto
  have "filter (\<lambda>v. criteria v = k) (baseOrderBy criteria xs)
          = map snd (filter (\<lambda>p. criteria (snd p) = k) (sort_key fst ?dec))"
    by (simp add: baseOrderBy_def filter_map comp_def)
  also have "\<dots> = map snd (filter ?P (sort_key fst ?dec))"
    using same by (metis (mono_tags, lifting) filter_cong)
  also have "\<dots> = map snd (sort_key fst (filter ?P ?dec))"
    by (simp only: filter_sort)
  also have "\<dots> = map snd (filter ?P ?dec)"
    by (simp only: sort_key_id_if_sorted [OF decorated_sorted])
  also have "\<dots> = filter (\<lambda>v. criteria v = k) xs"
  proof -
    have "filter ?P ?dec = map (\<lambda>(index, v). ((criteria v, index), v))
            (filter (\<lambda>p. criteria (snd p) = k) (enumerate 0 xs))"
      by (simp add: filter_map comp_def case_prod_beta)
    then have "map snd (filter ?P ?dec) = map snd (filter (\<lambda>p. criteria (snd p) = k) (enumerate 0 xs))"
      by (simp add: comp_def case_prod_beta)
    also have "\<dots> = filter (\<lambda>v. criteria v = k) xs"
      using map_snd_filter [of "\<lambda>v. criteria v = k" "enumerate 0 xs"] by simp
    finally show ?thesis .
  qed
  finally show ?thesis .
qed

lemma decorated_keys_distinct:
  "distinct (map fst (map (\<lambda>(index, v). ((criteria v, index), v)) (enumerate n xs)))"
proof -
  have "map snd (map fst (map (\<lambda>(index, v). ((criteria v, index), v)) (enumerate n xs)))
          = map fst (enumerate n xs)"
    by (simp add: comp_def case_prod_beta)
  then have "distinct (map snd (map fst (map (\<lambda>(index, v). ((criteria v, index), v)) (enumerate n xs))))"
    by (simp only: map_fst_enumerate distinct_upt)
  then show ?thesis
    by (simp only: distinct_map [of snd])
qed

text \<open>
  The sorted array does not depend on how \<^verbatim>\<open>Array.prototype.sort\<close> sorts: whatever
  arrangement of the decorated elements is in the order of the comparator, it is the one
  that \<open>baseOrderBy\<close> computes.
\<close>

lemma baseOrderBy_any_sort:
  assumes perm: "mset ys = mset (map (\<lambda>(index, v). ((criteria v, index), v)) (enumerate 0 xs))"
      and sorted: "sorted (map fst ys)"
  shows "map snd ys = baseOrderBy criteria xs"
proof -
  let ?dec = "map (\<lambda>(index, v). ((criteria v, index), v)) (enumerate 0 xs)"
  let ?zs = "sort_key fst ?dec"
  have dist_dec: "distinct (map fst ?dec)"
    by (rule decorated_keys_distinct)
  have "mset (map fst ys) = mset (map fst ?dec)"
    using arg_cong [OF perm, of "image_mset fst"] by (simp only: mset_map)
  then have dist_ys: "distinct (map fst ys)"
    using dist_dec mset_eq_imp_distinct_iff by blast
  have "mset ?zs = mset ?dec"
    by (rule mset_sort)
  then have "mset (map fst ?zs) = mset (map fst ?dec)"
    using arg_cong [of "mset ?zs" "mset ?dec" "image_mset fst"] by (simp only: mset_map)
  then have dist_zs: "distinct (map fst ?zs)"
    using dist_dec mset_eq_imp_distinct_iff by blast
  have "set ys = set ?dec"
    using perm by (rule mset_eq_setD)
  then have sets: "set ys = set ?zs"
    by simp
  have "inj_on fst (set ys \<union> set ?zs)"
    using dist_ys sets by (simp add: distinct_map)
  then have "ys = ?zs"
    using sorted dist_ys dist_zs sets
    by (intro map_sorted_distinct_set_unique [of fst]) simp_all
  then show ?thesis
    by (simp add: baseOrderBy_def)
qed

lemma baseOrderBy_Nil: "baseOrderBy criteria [] = []"
  by (simp add: baseOrderBy_def)

section \<open>Properties of the lesson list and the lesson report\<close>

lemma filtered_unrecognized:
  assumes "js_get filter_opt ''value'' \<notin> {JStr ''allLessons'', JStr ''activeLessons'', JStr ''inactiveLessons''}"
  shows "filtered filter_opt lessons = []"
  using assms by (simp add: filtered_def filter_callback_def)

text \<open>
  C2. The claim is that a filter value outside \<^verbatim>\<open>'allLessons'\<close>, \<^verbatim>\<open>'activeLessons'\<close>,
  \<^verbatim>\<open>'inactiveLessons'\<close> lets every lesson through the filter step. At the value
  \<^verbatim>\<open>'archived'\<close> the filter step does not return the two lessons it is given: it returns
  the empty array.
\<close>

theorem unrecognized_filter_counterexample:
  "JStr ''archived'' \<notin> {JStr ''allLessons'', JStr ''activeLessons'', JStr ''inactiveLessons''}
   \<and> filtered (option_of ''archived'') [lesson_a, lesson_b] \<noteq> [lesson_a, lesson_b]
   \<and> filtered (option_of ''archived'') [lesson_a, lesson_b] = []"
  by (simp add: filtered_def filter_callback_def option_of_def js_get_def)

text \<open>
  C2, as amended. For every filter value outside the three recognised ones the callback
  returns \<^verbatim>\<open>undefined\<close> for every lesson, so the filter step yields the empty array and the
  table has no rows.
\<close>

theorem unrecognized_filter_drops_all:
  assumes "js_get filter_opt ''value'' \<notin> {JStr ''allLessons'', JStr ''activeLessons'', JStr ''inactiveLessons''}"
  shows "filtered filter_opt lessons = [] \<and> table c filter_opt lessons = []"
  using filtered_unrecognized [OF assms]
  by (simp add: table_def sorted_lessons_def sortBy_def baseOrderBy_Nil)

theorem unrecognized_filter_drops_all_witness:
  "filtered (option_of ''archived'') [lesson_a, lesson_b] = []
   \<and> table example_coach (option_of ''archived'') [lesson_a, lesson_b] = []"
  using unrecognized_filter_drops_all [of "option_of ''archived''" "[lesson_a, lesson_b]" example_coach]
  by (simp add: option_of_def js_get_def)

text \<open>
  C8. Over lessons whose active flag is a boolean, the filter \<^verbatim>\<open>'activeLessons'\<close> keeps
  exactly the lessons whose flag is \<^verbatim>\<open>true\<close> and \<^verbatim>\<open>'inactiveLessons'\<close> exactly those whose flag
  is \<^verbatim>\<open>false\<close>, in the order of the input (the result is the input with the other lessons
  left out). Over an active, an inactive and an active lesson, the active-only result is
  the first and the third lesson.
\<close>

theorem active_inactive_filters:
  assumes "\<forall>lesson \<in> set lessons. \<exists>b. js_get lesson ''active'' = JBool b"
  shows "(js_get filter_opt ''value'' = JStr ''activeLessons'' \<longrightarrow>
            filtered filter_opt lessons = filter (\<lambda>lesson. js_get lesson ''active'' = JBool True) lessons)
       \<and> (js_get filter_opt ''value'' = JStr ''inactiveLessons'' \<longrightarrow>
            filtered filter_opt lessons = filter (\<lambda>lesson. js_get lesson ''active'' = JBool False) lessons)"
proof -
  have "truthy (js_get lesson ''active'') \<longleftrightarrow> js_get lesson ''active'' = JBool True"
    and "\<not> truthy (js_get lesson ''active'') \<longleftrightarrow> js_get lesson ''active'' = JBool False"
    if "lesson \<in> set lessons" for lesson
    using assms that by auto
  then show ?thesis
    by (auto simp: filtered_def filter_callback_def intro!: filter_cong)
qed

theorem active_inactive_filters_witness:
  "filtered (option_of ''activeLessons'') [lesson_a, lesson_b, lesson_c] = [lesson_a, lesson_c]
   \<and> filtered (option_of ''inactiveLessons'') [lesson_a, lesson_b, lesson_c] = [lesson_b]"
proof -
  have flags: "\<forall>lesson \<in> set [lesson_a, lesson_b, lesson_c]. \<exists>b. js_get lesson ''active'' = JBool b"
    by (auto simp: js_get_def lesson_a_def lesson_b_def lesson_c_def)
  show ?thesis
    using active_inactive_filters [OF flags, of "option_of ''activeLessons''"]
          active_inactive_filters [OF flags, of "option_of ''inactiveLessons''"]
    by (simp add: option_of_def js_get_def lesson_a_def lesson_b_def lesson_c_def)
qed

lemma js_get_lesson_row:
  "js_get (lesson_row c lesson) name =
     (if name \<in> fst ` set lesson then js_get lesson name
      else js_get [(''totalLearners'', JNum (int (length (getLearnersForLesson c lesson)))),
             (''tally'', tally_obj (getLessonStatusTally c (js_get lesson ''id'') (getLearnersForLesson c lesson))),
             (''groupNames'', getGroupNames c (js_get lesson ''groups'')),
             (''hasAssignments'', JBool (length (getLearnersForLesson c lesson) > 0))] name)"
  by (simp add: lesson_row_def Let_def js_get_Object_assign)

lemma js_get_content_row:
  "js_get (content_row c recipients content) name =
     (if name \<in> fst ` set content then js_get content name
      else js_get [(''avgTimeSpent'', getContentAvgTimeSpent c (js_get content ''content_id'') recipients),
             (''tally'', tally_obj (getContentStatusTally c (js_get content ''content_id'') recipients)),
             (''hasAssignments'', JNum (fold (\<lambda>b a. a + b)
                (Object_values (getContentStatusTally c (js_get content ''content_id'') recipients)) 0))] name)"
  by (simp add: content_row_def Let_def js_get_Object_assign)

lemma report_table_Inr:
  "report_table c recipients node_ids contentNodeMap = Inr rows \<Longrightarrow>
     rows = map (content_row c recipients) (sortBy (map the (contentArray node_ids contentNodeMap)) [''title''])"
  by (simp add: report_table_def Let_def split: if_splits)

lemma lesson_row_carries:
  assumes "name \<in> fst ` set lesson
           \<or> name \<notin> {''totalLearners'', ''tally'', ''groupNames'', ''hasAssignments''}"
  shows "js_get (lesson_row c lesson) name = js_get lesson name"
proof (cases "name \<in> fst ` set lesson")
  case True
  then show ?thesis by (simp add: js_get_lesson_row)
next
  case False
  with assms have "name \<notin> {''totalLearners'', ''tally'', ''groupNames'', ''hasAssignments''}"
    by simp
  with False show ?thesis
    by (simp add: js_get_lesson_row js_get_absent)
qed

lemma content_row_carries:
  assumes "name \<in> fst ` set content \<or> name \<notin> {''avgTimeSpent'', ''tally'', ''hasAssignments''}"
  shows "js_get (content_row c recipients content) name = js_get content name"
proof (cases "name \<in> fst ` set content")
  case True
  then show ?thesis by (simp add: js_get_content_row)
next
  case False
  with assms have "name \<notin> {''avgTimeSpent'', ''tally'', ''hasAssignments''}"
    by simp
  with False show ?thesis
    by (simp add: js_get_content_row js_get_absent)
qed

text \<open>
  C10. Every row of either table reads, at every property name its source item owns, the
  value of the source item, also where the name is one of the derived fields (\<^verbatim>\<open>tally\<close>,
  \<^verbatim>\<open>hasAssignments\<close>, ...): the item's value overwrites the derived one. At every name that
  is not a derived field (\<^verbatim>\<open>id\<close>, \<^verbatim>\<open>title\<close>, \<^verbatim>\<open>active\<close>, \<^verbatim>\<open>groups\<close>, ...) the row reads what the
  item reads.
\<close>

theorem rows_carry_item_fields:
  "list_all2 (\<lambda>row lesson. \<forall>name.
        name \<in> fst ` set lesson \<or> name \<notin> {''totalLearners'', ''tally'', ''groupNames'', ''hasAssignments''}
          \<longrightarrow> js_get row name = js_get lesson name)
      (table c filter_opt lessons) (sorted_lessons filter_opt lessons)
   \<and> (report_table c recipients node_ids contentNodeMap = Inr rows \<longrightarrow>
        list_all2 (\<lambda>row content. \<forall>name.
            name \<in> fst ` set content \<or> name \<notin> {''avgTimeSpent'', ''tally'', ''hasAssignments''}
              \<longrightarrow> js_get row name = js_get content name)
          rows (sortBy (map the (contentArray node_ids contentNodeMap)) [''title'']))"
proof (intro conjI impI)
  show "list_all2 (\<lambda>row lesson. \<forall>name.
        name \<in> fst ` set lesson \<or> name \<notin> {''totalLearners'', ''tally'', ''groupNames'', ''hasAssignments''}
          \<longrightarrow> js_get row name = js_get lesson name)
      (table c filter_opt lessons) (sorted_lessons filter_opt lessons)"
    unfolding table_def list_all2_map1
    by (rule list_all2_refl) (blast intro: lesson_row_carries)
next
  assume "report_table c recipients node_ids contentNodeMap = Inr rows"
  then have rows: "rows = map (content_row c recipients)
      (sortBy (map the (contentArray node_ids contentNodeMap)) [''title''])"
    by (rule report_table_Inr)
  show "list_all2 (\<lambda>row content. \<forall>name.
            name \<in> fst ` set content \<or> name \<notin> {''avgTimeSpent'', ''tally'', ''hasAssignments''}
              \<longrightarrow> js_get row name = js_get content name)
          rows (sortBy (map the (contentArray node_ids contentNodeMap)) [''title''])"
    unfolding rows list_all2_map1
    by (rule list_all2_refl) (blast intro: content_row_carries)
qed

theorem rows_carry_item_fields_witness:
  "table example_coach (option_of ''allLessons'') [lesson_c] = [lesson_row example_coach lesson_c]
   \<and> js_get (lesson_row example_coach lesson_c) ''hasAssignments'' = JStr ''own''
   \<and> js_get (lesson_row example_coach lesson_c) ''title'' = JStr ''Alpha''
   \<and> report_table example_coach [] [''n''] [''n'' \<mapsto> lesson_c]
         = Inr [content_row example_coach [] lesson_c]
   \<and> js_get (content_row example_coach [] lesson_c) ''hasAssignments'' = JStr ''own''"
proof -
  have s: "sorted_lessons (option_of ''allLessons'') [lesson_c] = [lesson_c]"
    by (simp add: sorted_lessons_def sortBy_def baseOrderBy_def filtered_def filter_callback_def
        option_of_def js_get_def)
  have t: "table example_coach (option_of ''allLessons'') [lesson_c] = [lesson_row example_coach lesson_c]"
    by (simp add: table_def s)
  have r: "report_table example_coach [] [''n''] [''n'' \<mapsto> lesson_c]
         = Inr [content_row example_coach [] lesson_c]"
    by (simp add: report_table_def contentArray_def sortBy_def baseOrderBy_def)
  have own: "js_get lesson_c ''hasAssignments'' = JStr ''own''" "js_get lesson_c ''title'' = JStr ''Alpha''"
    "''hasAssignments'' \<in> fst ` set lesson_c"
    by (simp_all add: js_get_def lesson_c_def)
  from rows_carry_item_fields [of example_coach "option_of ''allLessons''" "[lesson_c]"
      "[]" "[''n'']" "[''n'' \<mapsto> lesson_c]" "[content_row example_coach [] lesson_c]"]
  show ?thesis
    unfolding s t r using own
    by (simp add: contentArray_def sortBy_def baseOrderBy_def)
qed

lemma fold_plus_sum_list: "fold (\<lambda>b a. a + b) xs (s::int) = s + sum_list xs"
  by (induction xs arbitrary: s) simp_all

lemma lesson_row_hasAssignments:
  assumes "''hasAssignments'' \<notin> fst ` set lesson"
  shows "js_get (lesson_row c lesson) ''hasAssignments''
           = JBool (0 < length (getLearnersForLesson c lesson))"
  using assms by (simp add: js_get_lesson_row) (simp add: js_get_def)

lemma content_row_hasAssignments:
  assumes "''hasAssignments'' \<notin> fst ` set content"
  shows "js_get (content_row c recipients content) ''hasAssignments''
           = JNum (sum_list (Object_values
                (getContentStatusTally c (js_get content ''content_id'') recipients)))"
  using assms by (simp add: js_get_content_row fold_plus_sum_list) (simp add: js_get_def)

text \<open>
  C3. The claim is that the \<^verbatim>\<open>hasAssignments\<close> field is a boolean at both levels, true
  exactly when the count it is derived from is positive. At the resource level, for a
  content item whose tally sums to 3, the field of the row is not \<^verbatim>\<open>true\<close>: it is the
  number 3.
\<close>

theorem hasAssignments_counterexample:
  "report_table example_coach [] [''n''] [''n'' \<mapsto> lesson_a]
       = Inr [content_row example_coach [] lesson_a]
   \<and> 0 < sum_list (Object_values
           (getContentStatusTally example_coach (js_get lesson_a ''content_id'') []))
   \<and> js_get (content_row example_coach [] lesson_a) ''hasAssignments'' \<noteq> JBool True
   \<and> js_get (content_row example_coach [] lesson_a) ''hasAssignments'' = JNum 3"
proof -
  have "''hasAssignments'' \<notin> fst ` set lesson_a"
    by (simp add: lesson_a_def)
  from content_row_hasAssignments [OF this, of example_coach "[]"]
  show ?thesis
    by (simp add: report_table_def contentArray_def sortBy_def baseOrderBy_def
        example_coach_def Object_values_def)
qed

text \<open>
  C3, as amended. For a source item that owns no property \<^verbatim>\<open>hasAssignments\<close>: in a row
  of the lesson list the field is the boolean "the number of learners of the lesson is
  greater than zero"; in a row of the lesson report the field is the sum of the tally's
  counts, a number, which is truthy exactly when the sum is not zero, that is, when the
  counts are not negative, exactly when the sum is greater than zero.
\<close>

theorem hasAssignments_derivations:
  "list_all2 (\<lambda>row lesson. ''hasAssignments'' \<notin> fst ` set lesson \<longrightarrow>
        js_get row ''hasAssignments'' = JBool (0 < length (getLearnersForLesson c lesson)))
      (table c filter_opt lessons) (sorted_lessons filter_opt lessons)
   \<and> (report_table c recipients node_ids contentNodeMap = Inr rows \<longrightarrow>
        list_all2 (\<lambda>row content. ''hasAssignments'' \<notin> fst ` set content \<longrightarrow>
            (let counts = Object_values
                   (getContentStatusTally c (js_get content ''content_id'') recipients)
             in js_get row ''hasAssignments'' = JNum (sum_list counts)
                \<and> (truthy (js_get row ''hasAssignments'') \<longleftrightarrow> sum_list counts \<noteq> 0)
                \<and> ((\<forall>n \<in> set counts. 0 \<le> n) \<longrightarrow>
                     (truthy (js_get row ''hasAssignments'') \<longleftrightarrow> 0 < sum_list counts))))
          rows (sortBy (map the (contentArray node_ids contentNodeMap)) [''title'']))"
proof (intro conjI impI)
  show "list_all2 (\<lambda>row lesson. ''hasAssignments'' \<notin> fst ` set lesson \<longrightarrow>
        js_get row ''hasAssignments'' = JBool (0 < length (getLearnersForLesson c lesson)))
      (table c filter_opt lessons) (sorted_lessons filter_opt lessons)"
    unfolding table_def list_all2_map1
    by (rule list_all2_refl) (simp add: lesson_row_hasAssignments)
next
  assume "report_table c recipients node_ids contentNodeMap = Inr rows"
  then have rows: "rows = map (content_row c recipients)
      (sortBy (map the (contentArray node_ids contentNodeMap)) [''title''])"
    by (rule report_table_Inr)
  have nonneg: "(sum_list counts \<noteq> 0) = (0 < sum_list counts)"
    if "\<forall>n \<in> set counts. 0 \<le> n" for counts :: "int list"
    using sum_list_nonneg [of counts] that by fastforce
  show "list_all2 (\<lambda>row content. ''hasAssignments'' \<notin> fst ` set content \<longrightarrow>
            (let counts = Object_values
                   (getContentStatusTally c (js_get content ''content_id'') recipients)
             in js_get row ''hasAssignments'' = JNum (sum_list counts)
                \<and> (truthy (js_get row ''hasAssignments'') \<longleftrightarrow> sum_list counts \<noteq> 0)
                \<and> ((\<forall>n \<in> set counts. 0 \<le> n) \<longrightarrow>
                     (truthy (js_get row ''hasAssignments'') \<longleftrightarrow> 0 < sum_list counts))))
          rows (sortBy (map the (contentArray node_ids contentNodeMap)) [''title''])"
    unfolding rows list_all2_map1
    by (rule list_all2_refl) (simp add: content_row_hasAssignments Let_def nonneg)
qed

theorem hasAssignments_derivations_witness:
  "table example_coach (option_of ''allLessons'') [lesson_a] = [lesson_row example_coach lesson_a]
   \<and> length (getLearnersForLesson example_coach lesson_a) = 1
   \<and> js_get (lesson_row example_coach lesson_a) ''hasAssignments'' = JBool True
   \<and> report_table example_coach [] [''n''] [''n'' \<mapsto> lesson_a]
        = Inr [content_row example_coach [] lesson_a]
   \<and> js_get (content_row example_coach [] lesson_a) ''hasAssignments'' = JNum 3
   \<and> truthy (js_get (content_row example_coach [] lesson_a) ''hasAssignments'')"
proof -
  have s: "sorted_lessons (option_of ''allLessons'') [lesson_a] = [lesson_a]"
    by (simp add: sorted_lessons_def sortBy_def baseOrderBy_def filtered_def filter_callback_def
        option_of_def js_get_def)
  have t: "table example_coach (option_of ''allLessons'') [lesson_a] = [lesson_row example_coach lesson_a]"
    by (simp add: table_def s)
  have r: "report_table example_coach [] [''n''] [''n'' \<mapsto> lesson_a]
         = Inr [content_row example_coach [] lesson_a]"
    by (simp add: report_table_def contentArray_def sortBy_def baseOrderBy_def)
  have own: "''hasAssignments'' \<notin> fst ` set lesson_a"
    by (simp add: lesson_a_def)
  have learners: "length (getLearnersForLesson example_coach lesson_a) = 1"
    by (simp add: example_coach_def lesson_a_def js_get_def)
  then have ne: "getLearnersForLesson example_coach lesson_a \<noteq> []"
    by auto
  have counts: "sum_list (Object_values
       (getContentStatusTally example_coach (js_get lesson_a ''content_id'') [])) = 3"
    by (simp add: example_coach_def Object_values_def)
  from hasAssignments_derivations [of example_coach "option_of ''allLessons''" "[lesson_a]"
      "[]" "[''n'']" "[''n'' \<mapsto> lesson_a]" "[content_row example_coach [] lesson_a]"]
  show ?thesis
    unfolding s t r using own learners ne counts
    by (simp add: contentArray_def sortBy_def baseOrderBy_def Let_def)
qed

text \<open>
  C7. The sort step is stable: for every value \<open>k\<close> of the sort keys (title, then active
  flag, on the lesson list; title on the lesson report), the elements with these keys
  stand in the sorted array in the order they have in the array that is sorted; the rows
  are emitted in the order of the sorted array.
\<close>

theorem sort_step_stable:
  "filter (\<lambda>lesson. criteria_of [''title'', ''active''] lesson = k)
       (sorted_lessons filter_opt lessons)
     = filter (\<lambda>lesson. criteria_of [''title'', ''active''] lesson = k)
         (filtered filter_opt lessons)
   \<and> table c filter_opt lessons = map (lesson_row c) (sorted_lessons filter_opt lessons)
   \<and> filter (\<lambda>content. criteria_of [''title''] content = k') (sortBy contents [''title''])
       = filter (\<lambda>content. criteria_of [''title''] content = k') contents"
  by (simp add: sorted_lessons_def sortBy_def baseOrderBy_stable table_def)

section \<open>Properties of the tally calculator and the time aggregator\<close>

lemma fold_increment:
  "fold (\<lambda>recipient. increment (status_for records itemId recipient)) recipients t =
     \<lparr>notStarted = notStarted t + count_status records itemId NotStarted recipients,
      inProgress = inProgress t + count_status records itemId InProgress recipients,
      completed = completed t + count_status records itemId Completed recipients,
      needsHelp = needsHelp t + count_status records itemId NeedsHelp recipients\<rparr>"
proof (induction recipients arbitrary: t)
  case Nil
  show ?case by (simp add: count_status_def)
next
  case (Cons r rs)
  show ?case
    by (cases "status_for records itemId r") (simp_all add: Cons.IH count_status_def)
qed

lemma computeTally_counts:
  "computeTally records itemId recipients =
     \<lparr>notStarted = count_status records itemId NotStarted recipients,
      inProgress = count_status records itemId InProgress recipients,
      completed = count_status records itemId Completed recipients,
      needsHelp = count_status records itemId NeedsHelp recipients\<rparr>"
  by (simp add: computeTally_def fold_increment)

lemma count_status_total:
  "count_status records itemId NotStarted recipients
   + count_status records itemId InProgress recipients
   + count_status records itemId Completed recipients
   + count_status records itemId NeedsHelp recipients = int (length recipients)"
proof (induction recipients)
  case Nil
  show ?case by (simp add: count_status_def)
next
  case (Cons r rs)
  then show ?case
    by (cases "status_for records itemId r") (simp_all add: count_status_def)
qed

lemma count_status_bounds:
  "0 \<le> count_status records itemId s recipients"
  "count_status records itemId s recipients \<le> int (length recipients)"
  by (simp_all add: count_status_def)

text \<open>
  C4. For every list of recipients and every item, the four counts of the tally are not
  negative, none exceeds the number of recipients, and they sum to the number of
  recipients; the not-started count is the number of recipients that have no record for
  the item or a record with status not-started.
\<close>

theorem tally_sums_to_recipients:
  "sum_list (Object_values (computeTally records itemId recipients)) = int (length recipients)
   \<and> list_all (\<lambda>n. 0 \<le> n \<and> n \<le> int (length recipients))
        (Object_values (computeTally records itemId recipients))
   \<and> notStarted (computeTally records itemId recipients)
       = int (length (filter
           (\<lambda>recipient. case records recipient itemId of None \<Rightarrow> True
                          | Some r \<Rightarrow> status r = NotStarted) recipients))"
proof -
  have "(\<lambda>recipient. status_for records itemId recipient = NotStarted)
      = (\<lambda>recipient. case records recipient itemId of None \<Rightarrow> True
                          | Some r \<Rightarrow> status r = NotStarted)"
    by (auto simp: status_for_def fun_eq_iff split: option.splits)
  then have "notStarted (computeTally records itemId recipients)
       = int (length (filter
           (\<lambda>recipient. case records recipient itemId of None \<Rightarrow> True
                          | Some r \<Rightarrow> status r = NotStarted) recipients))"
    by (simp add: computeTally_counts count_status_def)
  moreover have "sum_list (Object_values (computeTally records itemId recipients))
       = int (length recipients)"
    using count_status_total [of records itemId recipients]
    by (simp add: computeTally_counts Object_values_def)
  moreover have "list_all (\<lambda>n. 0 \<le> n \<and> n \<le> int (length recipients))
        (Object_values (computeTally records itemId recipients))"
    by (simp add: computeTally_counts Object_values_def count_status_bounds)
  ultimately show ?thesis by simp
qed

lemma tally_scenario:
  "computeTally example_records ''i'' [''r1'', ''r2'', ''r3'']
     = \<lparr>notStarted = 1, inProgress = 1, completed = 1, needsHelp = 0\<rparr>"
  by (simp add: computeTally_def example_records_def status_for_def)

lemma tally_ten_recipients:
  "computeTally scenario_records ''i''
       [''r1'', ''r2'', ''r3'', ''r4'', ''r5'', ''r6'', ''r7'', ''r8'', ''r9'', ''r10'']
     = \<lparr>notStarted = 3, inProgress = 3, completed = 4, needsHelp = 0\<rparr>"
  by (simp add: computeTally_def scenario_records_def status_for_def)

lemma map_filter_all_None:
  "\<forall>x \<in> set xs. f x = None \<Longrightarrow> List.map_filter f xs = []"
  by (induction xs) (simp_all add: List.map_filter_simps)

text \<open>
  C6. When no recipient has a defined time spent on the item (in particular when there
  is no recipient), the average time is 0; and for no input at all is a division by zero
  attempted.
\<close>

theorem average_time_without_values:
  "((\<forall>recipient \<in> set recipients. time_for records itemId recipient = None) \<longrightarrow>
       computeAverageTime records itemId recipients = Inr 0)
   \<and> computeAverageTime records itemId recipients \<noteq> Inl DivisionByZero"
  by (auto simp: computeAverageTime_def Let_def divide_checked_def map_filter_all_None)

theorem average_time_without_values_witness:
  "time_for example_records ''i'' ''r2'' = None
   \<and> time_for example_records ''i'' ''r3'' = None
   \<and> computeAverageTime example_records ''i'' [''r2'', ''r3''] = Inr 0
   \<and> computeAverageTime example_records ''i'' [] = Inr 0"
  using average_time_without_values [of "[''r2'', ''r3'']" example_records "''i''"]
        average_time_without_values [of "[]" example_records "''i''"]
  by (simp add: time_for_def example_records_def)

lemma average_time_example:
  "computeAverageTime example_records ''i'' [''r1'', ''r2'', ''r3''] = Inr 30"
  by (simp add: computeAverageTime_def time_for_def example_records_def divide_checked_def
      List.map_filter_simps)

section \<open>The lesson list over the store: no effect on its inputs\<close>

lemma insort_key_map:
  "insort_key f (g x) (map g ys) = map g (insort_key (\<lambda>y. f (g y)) x ys)"
  by (induction ys) simp_all

lemma sort_key_map: "sort_key f (map g ys) = map g (sort_key (\<lambda>y. f (g y)) ys)"
  by (induction ys) (simp_all add: insort_key_map)

lemma sort_key_fst_map_snd:
  "sort_key fst (map (\<lambda>p. (fst p, g (snd p))) ys) = map (\<lambda>p. (fst p, g (snd p))) (sort_key fst ys)"
  using sort_key_map [of fst "\<lambda>p. (fst p, g (snd p))" ys] by simp

lemma enumerate_map: "enumerate n (map g xs) = map (\<lambda>p. (fst p, g (snd p))) (enumerate n xs)"
  by (induction xs arbitrary: n) simp_all

lemma baseOrderBy_map:
  "baseOrderBy criteria (map g xs) = map g (baseOrderBy (\<lambda>v. criteria (g v)) xs)"
proof -
  let ?dec = "map (\<lambda>(index, v). ((criteria (g v), index), v)) (enumerate 0 xs)"
  have "map (\<lambda>(index, v). ((criteria v, index), v)) (enumerate 0 (map g xs))
          = map (\<lambda>p. (fst p, g (snd p))) ?dec"
    by (simp add: enumerate_map comp_def case_prod_beta)
  then have "sort_key fst (map (\<lambda>(index, v). ((criteria v, index), v)) (enumerate 0 (map g xs)))
      = map (\<lambda>p. (fst p, g (snd p))) (sort_key fst ?dec)"
    by (simp only: sort_key_fst_map_snd)
  then show ?thesis
    by (simp add: baseOrderBy_def comp_def)
qed

lemma set_baseOrderBy: "set (baseOrderBy criteria xs) = set xs"
proof -
  have "set (baseOrderBy criteria xs)
      = snd ` (\<lambda>p. ((criteria (snd p), fst p), snd p)) ` set (enumerate 0 xs)"
    by (simp add: baseOrderBy_def case_prod_beta)
  also have "\<dots> = snd ` set (enumerate 0 xs)"
    by (simp add: image_image)
  also have "\<dots> = set (map snd (enumerate 0 xs))"
    by (simp only: set_map)
  finally show ?thesis by simp
qed

lemma upt_add_Suc: "[n ..< n + Suc k] = n # [Suc n ..< Suc n + k]"
  by (simp add: upt_conv_Cons)

lemma lesson_row_ref_eq:
  assumes "lesson < length h"
  shows "lesson_row_ref c lesson h = (length h, h @ [lesson_row c (h ! lesson)])"
  using assms
  by (simp add: lesson_row_ref_def new_object_def Object_assign_ref_def lesson_row_def Let_def
      nth_append)

lemma map_refs_lesson_row_ref:
  assumes "\<forall>r \<in> set xs. r < length h"
  shows "map_refs (lesson_row_ref c) xs h
           = ([length h ..< length h + length xs], h @ map (\<lambda>r. lesson_row c (h ! r)) xs)"
  using assms
proof (induction xs arbitrary: h)
  case Nil
  show ?case by simp
next
  case (Cons x xs)
  let ?h1 = "h @ [lesson_row c (h ! x)]"
  from Cons.prems have x: "x < length h" and xs: "\<forall>r \<in> set xs. r < length ?h1"
    by auto
  from Cons.prems have same: "map (\<lambda>r. lesson_row c (?h1 ! r)) xs = map (\<lambda>r. lesson_row c (h ! r)) xs"
    by (simp add: nth_append)
  show ?case
    using upt_add_Suc [of "length h" "length xs"]
    by (simp add: lesson_row_ref_eq [OF x] Cons.IH [OF xs] same del: upt_Suc)
qed

lemma table_ref_eq:
  assumes "\<forall>r \<in> set lessons. r < length h"
  shows "table_ref c filter_opt lessons h
           = ([length h ..< length h + length (table c filter_opt (map ((!) h) lessons))],
              h @ table c filter_opt (map ((!) h) lessons))"
proof -
  let ?P = "\<lambda>lesson. truthy (filter_callback (js_get filter_opt ''value'') lesson)"
  let ?kept = "filter (\<lambda>r. ?P (h ! r)) lessons"
  let ?sorted = "baseOrderBy (\<lambda>r. criteria_of [''title'', ''active''] (h ! r)) ?kept"
  have valid: "\<forall>r \<in> set ?sorted. r < length h"
    using assms by (simp add: set_baseOrderBy)
  have "map ((!) h) ?sorted = baseOrderBy (criteria_of [''title'', ''active'']) (map ((!) h) ?kept)"
    by (simp add: baseOrderBy_map)
  also have "map ((!) h) ?kept = filtered filter_opt (map ((!) h) lessons)"
    by (simp add: filtered_def filter_map comp_def)
  finally have sorted: "map ((!) h) ?sorted = sorted_lessons filter_opt (map ((!) h) lessons)"
    by (simp add: sorted_lessons_def sortBy_def)
  have rows: "map (\<lambda>r. lesson_row c (h ! r)) ?sorted = table c filter_opt (map ((!) h) lessons)"
    unfolding table_def sorted [symmetric] by (simp add: comp_def)
  have "table_ref c filter_opt lessons h = map_refs (lesson_row_ref c) ?sorted h"
    by (simp add: table_ref_def Let_def)
  also have "\<dots> = ([length h ..< length h + length ?sorted], h @ map (\<lambda>r. lesson_row c (h ! r)) ?sorted)"
    by (rule map_refs_lesson_row_ref [OF valid])
  also have "length ?sorted = length (table c filter_opt (map ((!) h) lessons))"
    unfolding rows [symmetric] by simp
  finally show ?thesis
    by (simp only: rows)
qed

lemma table_ref_values:
  assumes "\<forall>r \<in> set lessons. r < length h"
  shows "map ((!) (snd (table_ref c filter_opt lessons h))) (fst (table_ref c filter_opt lessons h))
           = table c filter_opt (map ((!) h) lessons)"
proof -
  have "map ((!) (h @ ys)) [length h ..< length h + length ys] = ys" for ys :: "jsobj list"
    by (rule nth_equalityI) (simp_all add: nth_append)
  then show ?thesis
    by (simp add: table_ref_eq [OF assms])
qed


lemma table_ref_again:
  assumes "\<forall>r \<in> set lessons. r < length h"
  shows "table_ref c filter_opt lessons (h @ extra)
           = ([length (h @ extra) ..< length (h @ extra)
                  + length (table c filter_opt (map ((!) h) lessons))],
              (h @ extra) @ table c filter_opt (map ((!) h) lessons))"
proof -
  from assms have valid: "\<forall>r \<in> set lessons. r < length (h @ extra)"
    by auto
  from assms have "map ((!) (h @ extra)) lessons = map ((!) h) lessons"
    by (simp add: nth_append)
  with table_ref_eq [OF valid, of c filter_opt] show ?thesis
    by simp
qed

text \<open>
  C9. Two invocations on structurally identical inputs (the same helpers and filter, and
  lessons that are equal as values, wherever they lie in whatever store) emit row sequences
  that are equal as values, in order. An invocation changes no object that existed before
  it and returns references to new objects only, so nothing is carried from one call to
  the next: a second invocation on the store the first one left emits new rows, distinct
  as references from the first ones and equal to them as values, and leaves the first rows
  and the lessons as they were.
\<close>

theorem table_idempotent:
  assumes "\<forall>r \<in> set lessons. r < length h"
      and "\<forall>r \<in> set lessons' . r < length h'"
      and "map ((!) h) lessons = map ((!) h') lessons'"
  shows "(case table_ref c filter_opt lessons h of (rows, h1) \<Rightarrow>
          case table_ref c filter_opt lessons' h' of (rows', h1') \<Rightarrow>
            map ((!) h1) rows = map ((!) h1') rows'
            \<and> take (length h) h1 = h
            \<and> list_all (\<lambda>r. length h \<le> r \<and> r < length h1) rows)
       \<and> (case table_ref c filter_opt lessons h of (rows, h1) \<Rightarrow>
          case table_ref c filter_opt lessons h1 of (rows2, h2) \<Rightarrow>
            map ((!) h2) rows2 = map ((!) h1) rows
            \<and> map ((!) h2) rows = map ((!) h1) rows
            \<and> map ((!) h2) lessons = map ((!) h) lessons
            \<and> set rows \<inter> set rows2 = {})"
proof -
  let ?T = "table c filter_opt (map ((!) h) lessons)"
  have nth_new: "map ((!) (xs @ ys)) [length xs ..< length xs + length ys] = ys"
    for xs ys :: "jsobj list"
    by (rule nth_equalityI) (simp_all add: nth_append)
  have nth_old: "map ((!) (xs @ ys)) rs = map ((!) xs) rs" if "\<forall>r \<in> set rs. r < length xs"
    for xs ys :: "jsobj list" and rs
    using that by (simp add: nth_append)
  have first: "table_ref c filter_opt lessons h = ([length h ..< length h + length ?T], h @ ?T)"
    by (rule table_ref_eq [OF assms(1)])
  have other: "table_ref c filter_opt lessons' h' = ([length h' ..< length h' + length ?T], h' @ ?T)"
    using table_ref_eq [OF assms(2), of c filter_opt] assms(3) by simp
  have second: "table_ref c filter_opt lessons (h @ ?T)
      = ([length (h @ ?T) ..< length (h @ ?T) + length ?T], (h @ ?T) @ ?T)"
    by (rule table_ref_again [OF assms(1)])
  have rows_old: "map ((!) ((h @ ?T) @ ?T)) [length h ..< length h + length ?T]
      = map ((!) (h @ ?T)) [length h ..< length h + length ?T]"
    by (rule nth_old) simp
  have lessons_old: "map ((!) ((h @ ?T) @ ?T)) lessons = map ((!) h) lessons"
    using assms(1) nth_old [of lessons "h" "?T @ ?T"] by simp
  have part1: "map ((!) (h @ ?T)) [length h ..< length h + length ?T]
                 = map ((!) (h' @ ?T)) [length h' ..< length h' + length ?T]
               \<and> take (length h) (h @ ?T) = h
               \<and> list_all (\<lambda>r. length h \<le> r \<and> r < length (h @ ?T)) [length h ..< length h + length ?T]"
    by (simp add: nth_new list_all_iff)
  have part2: "map ((!) ((h @ ?T) @ ?T)) [length (h @ ?T) ..< length (h @ ?T) + length ?T]
                 = map ((!) (h @ ?T)) [length h ..< length h + length ?T]
               \<and> set [length h ..< length h + length ?T]
                   \<inter> set [length (h @ ?T) ..< length (h @ ?T) + length ?T] = {}"
    by (simp only: nth_new) auto
  show ?thesis
    unfolding first other second prod.case
    using part1 part2 rows_old lessons_old by blast
qed

theorem table_idempotent_witness:
  "table_ref example_coach (option_of ''allLessons'') [0, 1] [lesson_a, lesson_b]
     = ([2, 3], [lesson_a, lesson_b,
                 lesson_row example_coach lesson_b, lesson_row example_coach lesson_a])
   \<and> table_ref example_coach (option_of ''allLessons'') [2, 1] [lesson_c, lesson_b, lesson_a]
     = ([3, 4], [lesson_c, lesson_b, lesson_a,
                 lesson_row example_coach lesson_b, lesson_row example_coach lesson_a])
   \<and> table_ref example_coach (option_of ''allLessons'') [0, 1]
        [lesson_a, lesson_b, lesson_row example_coach lesson_b, lesson_row example_coach lesson_a]
     = ([4, 5], [lesson_a, lesson_b,
                 lesson_row example_coach lesson_b, lesson_row example_coach lesson_a,
                 lesson_row example_coach lesson_b, lesson_row example_coach lesson_a])
   \<and> map ((!) [lesson_a, lesson_b,
                 lesson_row example_coach lesson_b, lesson_row example_coach lesson_a]) [2, 3]
     = map ((!) [lesson_c, lesson_b, lesson_a,
                 lesson_row example_coach lesson_b, lesson_row example_coach lesson_a]) [3, 4]"
proof -
  have valid: "\<forall>r \<in> set [0, 1]. r < length [lesson_a, lesson_b]"
    and valid': "\<forall>r \<in> set [2, 1]. r < length [lesson_c, lesson_b, lesson_a]"
    and same: "map ((!) [lesson_a, lesson_b]) [0, 1] = map ((!) [lesson_c, lesson_b, lesson_a]) [2, 1]"
    by simp_all
  have first: "table_ref example_coach (option_of ''allLessons'') [0, 1] [lesson_a, lesson_b]
     = ([2, 3], [lesson_a, lesson_b,
                 lesson_row example_coach lesson_b, lesson_row example_coach lesson_a])"
    by code_simp
  have other: "table_ref example_coach (option_of ''allLessons'') [2, 1] [lesson_c, lesson_b, lesson_a]
     = ([3, 4], [lesson_c, lesson_b, lesson_a,
                 lesson_row example_coach lesson_b, lesson_row example_coach lesson_a])"
    by code_simp
  have second: "table_ref example_coach (option_of ''allLessons'') [0, 1]
        [lesson_a, lesson_b, lesson_row example_coach lesson_b, lesson_row example_coach lesson_a]
     = ([4, 5], [lesson_a, lesson_b,
                 lesson_row example_coach lesson_b, lesson_row example_coach lesson_a,
                 lesson_row example_coach lesson_b, lesson_row example_coach lesson_a])"
    by code_simp
  from table_idempotent [OF valid valid' same, of example_coach "option_of ''allLessons''"]
  show ?thesis
    unfolding first other second by simp
qed

text \<open>An example of the sort step: two lessons with the title Alpha and an active flag
  of \<^verbatim>\<open>true\<close> keep their order, behind the inactive Alpha and before Zeta.\<close>

lemma sort_example:
  "sortBy [lesson_a, lesson_c, lesson_b, lesson_c @ [(''note'', JNum 2)]] [''title'', ''active'']
     = [lesson_b, lesson_c, lesson_c @ [(''note'', JNum 2)], lesson_a]"
  by code_simp

end
